theory Spec2Isabelle
  imports Complex_Main "HOL-Library.Log_Nat" "HOL-Library.Char_ord" "HOL-Library.List_Lexorder"
begin

section \<open>JavaScript numbers\<close>

text \<open>
  Counters of the application (array lengths, streaks, totals) are integer-valued and stay
  far below \<open>2 ^ 53\<close>, where JavaScript's \<open>+\<close> is exact: they are modelled as \<open>nat\<close> and
  \<open>int\<close>. Percentages are computed as \<^verbatim>\<open>Math.round((a / b) * 100)\<close>, where the division
  and the multiplication are IEEE 754 binary64 operations (round to nearest, ties to even).
  A finite double is a rational number; \<open>fl\<close> rounds a rational to the nearest double with
  a 53-bit significand. Overflow and subnormal numbers are not modelled: with operands that
  are array lengths (below \<open>2 ^ 32\<close>) every value met is in the normal range.
\<close>

definition pow2 :: "int \<Rightarrow> rat" where
  "pow2 k = (if 0 \<le> k then 2 ^ nat k else 1 / 2 ^ nat (- k))"

text \<open>The binary exponent \<open>e\<close> of a positive rational: \<open>2 ^ e \<le> x < 2 ^ (e + 1)\<close>.\<close>

definition expo :: "rat \<Rightarrow> int" where
  "expo x = (if 1 \<le> x then bitlen \<lfloor>x\<rfloor> - 1 else - bitlen (\<lceil>1 / x\<rceil> - 1))"

definition round_even :: "rat \<Rightarrow> int" where
  "round_even m = (let f = \<lfloor>m\<rfloor>; r = m - of_int f in
     if r < 1 / 2 then f else if 1 / 2 < r then f + 1 else if even f then f else f + 1)"

definition fl :: "rat \<Rightarrow> rat" where
  "fl x = (if x = 0 then 0 else
     let a = \<bar>x\<bar>; u = pow2 (expo a - 52); n = round_even (a / u)
     in (if x < 0 then - (of_int n * u) else of_int n * u))"

datatype jsnum = Num rat | PosInf | NaN

text \<open>\<^verbatim>\<open>a / b\<close> on two non-negative integers: \<^verbatim>\<open>0 / 0\<close> is NaN, \<^verbatim>\<open>a / 0\<close> is Infinity.\<close>

definition js_div :: "nat \<Rightarrow> nat \<Rightarrow> jsnum" where
  "js_div a b =
     (if b = 0 then (if a = 0 then NaN else PosInf) else Num (fl (of_nat a / of_nat b)))"

text \<open>\<^verbatim>\<open>x * k\<close> for a non-negative integer constant \<open>k\<close>.\<close>

fun js_times :: "jsnum \<Rightarrow> nat \<Rightarrow> jsnum" where
  "js_times (Num x) k = Num (fl (x * of_nat k))"
| "js_times PosInf k = (if k = 0 then NaN else PosInf)"
| "js_times NaN k = NaN"

text \<open>\<^verbatim>\<open>Math.round\<close>: the closest integer, a tie going towards \<open>+\<infinity>\<close>.\<close>

fun Math_round :: "jsnum \<Rightarrow> jsnum" where
  "Math_round (Num x) = Num (of_int \<lfloor>x + 1 / 2\<rfloor>)"
| "Math_round PosInf = PosInf"
| "Math_round NaN = NaN"

text \<open>The expression \<^verbatim>\<open>Math.round((c / t) * 100)\<close> of practice.tsx and stats.tsx.\<close>

definition percentage :: "nat \<Rightarrow> nat \<Rightarrow> jsnum" where
  "percentage c t = Math_round (js_times (js_div c t) 100)"

text \<open>Rounding half up on the real-valued percentage \<open>100 * c / t\<close>, the specification's \<open>round\<close>.\<close>

definition round_half_up :: "rat \<Rightarrow> int" where
  "round_half_up v = \<lfloor>v + 1 / 2\<rfloor>"

text \<open>The percentage \<open>100 * c / t\<close> lies exactly half-way between two integers.\<close>

definition half_way :: "nat \<Rightarrow> nat \<Rightarrow> bool" where
  "half_way c t = (t dvd 200 * c \<and> odd ((200 * c) div t))"


section \<open>Data of the practice screen (practice.tsx)\<close>

text \<open>
  The field \<^verbatim>\<open>id\<close> of a question is \<open>id_q\<close>. Rows of the remote store leave out the
  generated row id and the \<^verbatim>\<open>createdAt\<close>/\<^verbatim>\<open>updatedAt\<close>/\<^verbatim>\<open>answeredAt\<close> time stamps
  (\<^verbatim>\<open>Date.now()\<close>, \<^verbatim>\<open>Math.random()\<close>, \<^verbatim>\<open>new Date()\<close>), which no computation reads.
\<close>

record Question =
  id_q :: string
  questionText :: string
  optionA :: string
  optionB :: string
  optionC :: string
  optionD :: string
  correctAnswer :: string
  explanation :: string
  category :: string
  knowledgeArea :: string
  difficulty :: string

record UserAnswer =
  questionId :: string
  selectedAnswer_ua :: string
  isCorrect :: bool

text \<open>The signed-in user of \<^verbatim>\<open>blink.auth\<close>.\<close>

record AuthUser =
  id_au :: string
  email_au :: string
  displayName_au :: "string option"

text \<open>A row of \<^verbatim>\<open>blink.db.users\<close>, keyed by the user id; \<open>None\<close> is an unset date.\<close>

record UserRecord =
  email :: string
  displayName :: string
  currentStreak :: int
  longestStreak :: int
  lastStudyDate :: "string option"
  totalQuestionsAnswered :: int
  correctAnswers :: int

text \<open>A row of \<^verbatim>\<open>blink.db.userAnswers\<close>; \<open>isCorrect_r\<close> is 1 or 0.\<close>

record AnswerRecord =
  userId_r :: string
  questionId_r :: string
  selectedAnswer_r :: string
  isCorrect_r :: int

text \<open>A row of \<^verbatim>\<open>blink.db.studySessions\<close>.\<close>

record StudySession =
  userId_s :: string
  sessionDate :: string
  questionsAnswered :: nat
  correctAnswers_s :: nat
  sessionDuration :: nat


section \<open>The streak computation of completeSession\<close>

text \<open>\<^verbatim>\<open>!lastStudyDate\<close>: null, undefined and the empty string are falsy.\<close>

definition falsy :: "string option \<Rightarrow> bool" where
  "falsy v = (case v of None \<Rightarrow> True | Some s \<Rightarrow> s = [])"

text \<open>
  \<^verbatim>\<open>lastStudyDate < yesterdayStr\<close>: two strings compare by code units; null or undefined
  against a date string compares as numbers, one of them NaN, and is false.
\<close>

definition js_lt :: "string option \<Rightarrow> string \<Rightarrow> bool" where
  "js_lt v y = (case v of None \<Rightarrow> False | Some s \<Rightarrow> s < y)"

text \<open>
  Lines 145--156. \<open>today\<close> and \<open>yesterdayStr\<close> are the two strings the handler derives from
  the clock (\<^verbatim>\<open>new Date().toISOString().split('T')[0]\<close>, before and after
  \<^verbatim>\<open>setDate(getDate() - 1)\<close>).
\<close>

definition newStreak :: "UserRecord \<Rightarrow> string \<Rightarrow> string \<Rightarrow> int" where
  "newStreak existingUser today yesterdayStr =
     (if lastStudyDate existingUser = Some today then currentStreak existingUser
      else if lastStudyDate existingUser = Some yesterdayStr then currentStreak existingUser + 1
      else if falsy (lastStudyDate existingUser) \<or> js_lt (lastStudyDate existingUser) yesterdayStr
        then 1
      else currentStreak existingUser)"

text \<open>Lines 158--167: the row after \<^verbatim>\<open>blink.db.users.update\<close> merged the new fields.\<close>

definition updatedUser :: "UserRecord \<Rightarrow> string \<Rightarrow> string \<Rightarrow> nat \<Rightarrow> nat \<Rightarrow> UserRecord" where
  "updatedUser existingUser today yesterdayStr totalQuestions correctCount =
     (let newLongestStreak = max (longestStreak existingUser) (newStreak existingUser today yesterdayStr)
      in existingUser
        \<lparr> currentStreak := newStreak existingUser today yesterdayStr,
          longestStreak := newLongestStreak,
          lastStudyDate := Some today,
          totalQuestionsAnswered := totalQuestionsAnswered existingUser + int totalQuestions,
          correctAnswers := correctAnswers existingUser + int correctCount \<rparr>)"

text \<open>Lines 170--181: the row of \<^verbatim>\<open>blink.db.users.create\<close>.\<close>

definition createdUser :: "AuthUser \<Rightarrow> string \<Rightarrow> nat \<Rightarrow> nat \<Rightarrow> UserRecord" where
  "createdUser u today totalQuestions correctCount =
     \<lparr> email = email_au u,
       displayName = (case displayName_au u of
                        None \<Rightarrow> takeWhile (\<lambda>c. c \<noteq> CHR ''@'') (email_au u)
                      | Some n \<Rightarrow> if n = [] then takeWhile (\<lambda>c. c \<noteq> CHR ''@'') (email_au u) else n),
       currentStreak = 1,
       longestStreak = 1,
       lastStudyDate = Some today,
       totalQuestionsAnswered = int totalQuestions,
       correctAnswers = int correctCount \<rparr>"

text \<open>
  Lines 138--182: the user progress record written for a prior record (or none), the
  session's tally and the clock's two dates.
\<close>

definition progressRecord ::
  "AuthUser \<Rightarrow> UserRecord option \<Rightarrow> string \<Rightarrow> string \<Rightarrow> nat \<Rightarrow> nat \<Rightarrow> UserRecord" where
  "progressRecord u existing today yesterdayStr totalQuestions correctCount =
     (case existing of
        Some existingUser \<Rightarrow> updatedUser existingUser today yesterdayStr totalQuestions correctCount
      | None \<Rightarrow> createdUser u today totalQuestions correctCount)"


section \<open>The practice screen and its handlers\<close>

text \<open>The React state of the component \<^verbatim>\<open>Practice\<close> (its \<^verbatim>\<open>useState\<close> cells).\<close>

record PracticeState =
  questions :: "Question list"
  currentQuestionIndex :: nat
  selectedAnswer :: "string option"
  showExplanation :: bool
  userAnswers :: "UserAnswer list"
  loading :: bool
  user :: "AuthUser option"
  sessionComplete :: bool

text \<open>
  The world a handler runs in: the component state, the three collections of the remote
  store it touches, the console and the alerts raised.
\<close>

record World =
  ui :: PracticeState
  users :: "string \<rightharpoonup> UserRecord"
  userAnswersDb :: "AnswerRecord list"
  studySessions :: "StudySession list"
  console :: "string list"
  alerts :: "string list"

text \<open>
  What the outside supplies to one handler run: the two date strings read from the clock
  and whether each call to the remote store succeeds (\<open>False\<close>: the call throws).
\<close>

record Env =
  today_env :: string
  yesterdayStr_env :: string
  answerCreateOk :: bool
  usersListOk :: bool
  usersWriteOk :: bool
  sessionCreateOk :: bool

text \<open>Lines 74--77.\<close>

definition handleAnswerSelect :: "string \<Rightarrow> World \<Rightarrow> World" where
  "handleAnswerSelect answer w =
     (if showExplanation (ui w) then w
      else w\<lparr>ui := (ui w)\<lparr>selectedAnswer := Some answer\<rparr>\<rparr>)"

text \<open>
  Lines 79--109. Reading \<^verbatim>\<open>questions[currentQuestionIndex].correctAnswer\<close> beyond the
  array throws outside any \<^verbatim>\<open>try\<close>: the handler stops and nothing changes.
\<close>

definition submitAnswer :: "Env \<Rightarrow> World \<Rightarrow> World" where
  "submitAnswer env w =
     (case (selectedAnswer (ui w), user (ui w)) of
        (Some sel, Some u) \<Rightarrow>
          if sel = [] then w
          else if length (questions (ui w)) \<le> currentQuestionIndex (ui w) then w
          else
            let currentQuestion = questions (ui w) ! currentQuestionIndex (ui w);
                isCorrect = (sel = correctAnswer currentQuestion);
                userAnswer = \<lparr> questionId = id_q currentQuestion,
                               selectedAnswer_ua = sel,
                               isCorrect = isCorrect \<rparr>;
                w1 = w\<lparr>ui := (ui w)\<lparr>userAnswers := userAnswers (ui w) @ [userAnswer]\<rparr>\<rparr>;
                w2 = (if answerCreateOk env
                      then w1\<lparr>userAnswersDb := userAnswersDb w1 @
                              [\<lparr> userId_r = id_au u,
                                 questionId_r = id_q currentQuestion,
                                 selectedAnswer_r = sel,
                                 isCorrect_r = (if isCorrect then 1 else 0) \<rparr>]\<rparr>
                      else w1\<lparr>console := console w1 @ [''Error saving answer:'']\<rparr>)
            in w2\<lparr>ui := (ui w2)\<lparr>showExplanation := True\<rparr>\<rparr>
      | _ \<Rightarrow> w)"

text \<open>Lines 124--126: the tally that completeSession merges into the user's record.\<close>

definition correctCount :: "PracticeState \<Rightarrow> nat" where
  "correctCount st =
     length (filter isCorrect (userAnswers st)) +
     (if selectedAnswer st = Some (correctAnswer (questions st ! currentQuestionIndex st))
      then 1 else 0)"

definition totalQuestions :: "PracticeState \<Rightarrow> nat" where
  "totalQuestions st = length (questions st)"

text \<open>The \<^verbatim>\<open>catch\<close> block of completeSession, lines 196--199.\<close>

definition completeFailed :: "World \<Rightarrow> World" where
  "completeFailed w =
     w\<lparr> console := console w @ [''Error completing session:''],
        alerts := alerts w @ [''Failed to save progress. Please try again.''] \<rparr>"

text \<open>
  Lines 121--200. The calls to the store run in order; one that throws leaves the earlier
  writes in place and jumps to the \<^verbatim>\<open>catch\<close> block.
\<close>

definition completeSession :: "Env \<Rightarrow> World \<Rightarrow> World" where
  "completeSession env w =
     (case user (ui w) of
        None \<Rightarrow> w
      | Some u \<Rightarrow>
          if length (questions (ui w)) \<le> currentQuestionIndex (ui w) then w
          else if \<not> usersListOk env then completeFailed w
          else if \<not> usersWriteOk env then completeFailed w
          else
            let w1 = w\<lparr>users := (users w)(id_au u \<mapsto>
                        progressRecord u (users w (id_au u)) (today_env env) (yesterdayStr_env env)
                          (totalQuestions (ui w)) (correctCount (ui w)))\<rparr>
            in if \<not> sessionCreateOk env then completeFailed w1
               else w1\<lparr> studySessions := studySessions w1 @
                           [\<lparr> userId_s = id_au u,
                              sessionDate = today_env env,
                              questionsAnswered = totalQuestions (ui w),
                              correctAnswers_s = correctCount (ui w),
                              sessionDuration = 0 \<rparr>],
                        ui := (ui w1)\<lparr>sessionComplete := True\<rparr> \<rparr>)"

text \<open>Lines 111--119; \<^verbatim>\<open>currentQuestionIndex < questions.length - 1\<close> on integers.\<close>

definition nextQuestion :: "Env \<Rightarrow> World \<Rightarrow> World" where
  "nextQuestion env w =
     (if currentQuestionIndex (ui w) + 1 < length (questions (ui w))
      then w\<lparr>ui := (ui w)\<lparr> currentQuestionIndex := currentQuestionIndex (ui w) + 1,
                           selectedAnswer := None,
                           showExplanation := False \<rparr>\<rparr>
      else completeSession env w)"

text \<open>
  What the component renders (lines 211--391), in the order of its early returns. The
  results view carries the three numbers of lines 244--246; the question view carries the
  index of the question shown and whether its explanation is shown.
\<close>

datatype View =
    LoadingView
  | NoQuestionsView
  | ResultsView nat nat jsnum
  | QuestionView nat bool

definition render :: "PracticeState \<Rightarrow> View" where
  "render st =
     (if loading st then LoadingView
      else if length (questions st) = 0 then NoQuestionsView
      else if sessionComplete st then
        ResultsView (length (filter isCorrect (userAnswers st)))
                    (length (questions st))
                    (percentage (length (filter isCorrect (userAnswers st))) (length (questions st)))
      else QuestionView (currentQuestionIndex st) (showExplanation st))"

text \<open>
  The touches the question view accepts: an option button is disabled while the
  explanation is shown; the submit button is rendered while it is not shown and disabled
  without a selection; the next button is rendered while it is shown.
\<close>

datatype Touch = Option string | Submit | Next

definition press :: "Env \<Rightarrow> Touch \<Rightarrow> World \<Rightarrow> World" where
  "press env t w =
     (case render (ui w) of
        QuestionView i shown \<Rightarrow>
          (case t of
             Option k \<Rightarrow> if shown then w else handleAnswerSelect k w
           | Submit \<Rightarrow> if shown \<or> falsy (selectedAnswer (ui w)) then w else submitAnswer env w
           | Next \<Rightarrow> if shown then nextQuestion env w else w)
      | _ \<Rightarrow> w)"

text \<open>A user's run through the screen: touches, each with what the outside supplies.\<close>

fun run :: "(Env \<times> Touch) list \<Rightarrow> World \<Rightarrow> World" where
  "run [] w = w"
| "run ((env, t) # es) w = run es (press env t w)"

text \<open>
  The screen once \<^verbatim>\<open>loadQuestions\<close> has stored the (shuffled) questions for a signed-in
  user, over a given content of the users collection.
\<close>

definition loaded :: "AuthUser \<Rightarrow> Question list \<Rightarrow> (string \<rightharpoonup> UserRecord) \<Rightarrow> World" where
  "loaded u qs us =
     \<lparr> ui = \<lparr> questions = qs, currentQuestionIndex = 0, selectedAnswer = None,
              showExplanation = False, userAnswers = [], loading = False,
              user = Some u, sessionComplete = False \<rparr>,
       users = us, userAnswersDb = [], studySessions = [], console = [], alerts = [] \<rparr>"


text \<open>
  What holds of the screen from the moment the questions are loaded: the index is inside
  the question list, and there is one recorded answer for each question before the
  current one, plus one for the current question once its explanation is shown.
\<close>

definition consistent :: "World \<Rightarrow> bool" where
  "consistent w =
     (\<not> loading (ui w) \<and> user (ui w) \<noteq> None
      \<and> currentQuestionIndex (ui w) < length (questions (ui w))
      \<and> length (userAnswers (ui w))
          = currentQuestionIndex (ui w) + (if showExplanation (ui w) then 1 else 0)
      \<and> (if sessionComplete (ui w)
         then showExplanation (ui w)
              \<and> currentQuestionIndex (ui w) + 1 = length (questions (ui w))
         else True))"



section \<open>The category statistics of the stats screen (stats.tsx)\<close>

text \<open>
  A JavaScript \<^verbatim>\<open>Map\<close> iterates its keys in the order of their first insertion: an
  association list, where \<^verbatim>\<open>set\<close> on a present key replaces the value in place.
\<close>

fun Map_get :: "('k \<times> 'v) list \<Rightarrow> 'k \<Rightarrow> 'v option" where
  "Map_get [] k = None"
| "Map_get ((k', v) # m) k = (if k' = k then Some v else Map_get m k)"

fun Map_set :: "'k \<Rightarrow> 'v \<Rightarrow> ('k \<times> 'v) list \<Rightarrow> ('k \<times> 'v) list" where
  "Map_set k v [] = [(k, v)]"
| "Map_set k v ((k', v') # m) = (if k' = k then (k, v) # m else (k', v') # Map_set k v m)"

text \<open>\<^verbatim>\<open>new Map(pairs)\<close> sets the pairs one after the other.\<close>

definition Map_new :: "('k \<times> 'v) list \<Rightarrow> ('k \<times> 'v) list" where
  "Map_new pairs = foldl (\<lambda>m (k, v). Map_set k v m) [] pairs"

text \<open>The values of \<^verbatim>\<open>categoryMap\<close> and the entries of the result.\<close>

record Tally =
  total_t :: nat
  correct_t :: nat

record CategoryStats =
  category_cs :: string
  total :: nat
  correct :: nat
  accuracy :: jsnum

text \<open>Line 129.\<close>

definition questionMap :: "Question list \<Rightarrow> (string \<times> Question) list" where
  "questionMap qs = Map_new (map (\<lambda>q. (id_q q, q)) qs)"

text \<open>Lines 132--143, the body of the \<^verbatim>\<open>forEach\<close>.\<close>

definition tallyAnswer ::
  "(string \<times> Question) list \<Rightarrow> (string \<times> Tally) list \<Rightarrow> AnswerRecord \<Rightarrow> (string \<times> Tally) list"
where
  "tallyAnswer qm categoryMap answer =
     (case Map_get qm (questionId_r answer) of
        None \<Rightarrow> categoryMap
      | Some question \<Rightarrow>
          let current = (case Map_get categoryMap (category question) of
                           None \<Rightarrow> \<lparr> total_t = 0, correct_t = 0 \<rparr>
                         | Some data \<Rightarrow> data)
          in Map_set (category question)
               \<lparr> total_t = total_t current + 1,
                 correct_t = correct_t current + (if 0 < isCorrect_r answer then 1 else 0) \<rparr>
               categoryMap)"

text \<open>Lines 145--149, the entry built from one pair of the map.\<close>

definition toStats :: "string \<times> Tally \<Rightarrow> CategoryStats" where
  "toStats e =
     \<lparr> category_cs = fst e,
       total = total_t (snd e),
       correct = correct_t (snd e),
       accuracy = (if 0 < total_t (snd e)
                   then percentage (correct_t (snd e)) (total_t (snd e)) else Num 0) \<rparr>"

text \<open>
  Line 150: \<^verbatim>\<open>sort((a, b) => b.total - a.total)\<close>, a stable sort, the larger total first.
\<close>

definition sortByTotal :: "CategoryStats list \<Rightarrow> CategoryStats list" where
  "sortByTotal stats = sort_key (\<lambda>s. - int (total s)) stats"

text \<open>
  Lines 122--152, for the answers passed in and the questions that
  \<^verbatim>\<open>blink.db.questions.list\<close> returned.
\<close>

definition calculateCategoryStats :: "AnswerRecord list \<Rightarrow> Question list \<Rightarrow> CategoryStats list" where
  "calculateCategoryStats answers qs =
     sortByTotal (map toStats (foldl (tallyAnswer (questionMap qs)) [] answers))"

text \<open>An answer's question is in the catalog.\<close>

definition found :: "Question list \<Rightarrow> AnswerRecord \<Rightarrow> bool" where
  "found qs answer = (questionId_r answer \<in> id_q ` set qs)"


section \<open>Example data\<close>

definition alice :: AuthUser where
  "alice = \<lparr> id_au = ''u1'', email_au = ''alice@example.org'', displayName_au = None \<rparr>"

definition aliceRow :: "int \<Rightarrow> int \<Rightarrow> string option \<Rightarrow> int \<Rightarrow> int \<Rightarrow> UserRecord" where
  "aliceRow cs ls d t c =
     \<lparr> email = ''alice@example.org'', displayName = ''alice'', currentStreak = cs,
       longestStreak = ls, lastStudyDate = d, totalQuestionsAnswered = t, correctAnswers = c \<rparr>"

definition question :: "string \<Rightarrow> string \<Rightarrow> string \<Rightarrow> Question" where
  "question i a c =
     \<lparr> id_q = i, questionText = ''Which one?'', optionA = ''first'', optionB = ''second'',
       optionC = ''third'', optionD = ''fourth'', correctAnswer = a, explanation = ''Because.'',
       category = c, knowledgeArea = ''Scope'', difficulty = ''easy'' \<rparr>"

definition answered :: "string \<Rightarrow> int \<Rightarrow> AnswerRecord" where
  "answered i c =
     \<lparr> userId_r = ''u1'', questionId_r = i, selectedAnswer_r = ''A'', isCorrect_r = c \<rparr>"


definition march1 :: "bool \<Rightarrow> Env" where
  "march1 ok =
     \<lparr> today_env = ''2024-03-01'', yesterdayStr_env = ''2024-02-29'',
       answerCreateOk = ok, usersListOk = True, usersWriteOk = True, sessionCreateOk = True \<rparr>"


text \<open>A session of one question, answered right, for a user without a record.\<close>

definition perfectRun :: World where
  "perfectRun =
     run [(march1 True, Option ''A''), (march1 True, Submit), (march1 True, Next)]
       (loaded alice [question ''q1'' ''A'' ''People''] Map.empty)"



text \<open>Five answers, one of them to a question that the catalog of three does not hold.\<close>

definition someAnswers :: "AnswerRecord list" where
  "someAnswers =
     [answered ''q2'' 0, answered ''q1'' 1, answered ''q9'' 1, answered ''q1'' 0,
      answered ''q3'' 1]"

definition someCatalog :: "Question list" where
  "someCatalog =
     [question ''q1'' ''A'' ''People'', question ''q2'' ''B'' ''Process'',
      question ''q3'' ''C'' ''People'']"


section \<open>Rounding to a double: the error of one operation\<close>

lemma pow2_powi: "pow2 k = 2 powi k"
  by (simp add: pow2_def power_int_def inverse_eq_divide power_one_over)

lemma pow2_pos: "0 < pow2 k"
  by (simp add: pow2_powi)

lemma pow2_diff: "pow2 (a - b) = pow2 a / pow2 b"
  by (simp add: pow2_powi power_int_diff)

lemma pow2_nat: "0 \<le> k \<Longrightarrow> pow2 k = 2 ^ nat k"
  by (simp add: pow2_def)

lemma two_power_nat_step: "1 \<le> b \<Longrightarrow> (2::rat) ^ nat b = 2 * 2 ^ nat (b - 1)"
proof -
  assume "1 \<le> b"
  then have "nat b = Suc (nat (b - 1))" by simp
  then show ?thesis by simp
qed

lemma expo_bounds:
  assumes "0 < x"
  shows "pow2 (expo x) \<le> x \<and> x < 2 * pow2 (expo x)"
proof (cases "1 \<le> x")
  case True
  define n where "n = \<lfloor>x\<rfloor>"
  define b where "b = bitlen n"
  have n1: "1 \<le> n" using True by (simp add: n_def)
  then have npos: "0 < n" by simp
  from bitlen_bounds [OF npos]
  have lo: "2 ^ nat (b - 1) \<le> n" and hi: "n < 2 ^ nat b" by (simp_all add: b_def)
  have b1: "1 \<le> b"
    using npos bitlen_eq_zero_iff [of n] bitlen_nonneg [of n] by (simp add: b_def)
  have e: "expo x = b - 1" using True by (simp add: expo_def n_def b_def)
  have "(2::rat) ^ nat (b - 1) \<le> of_int n" using lo by simp
  also have "\<dots> \<le> x" by (simp add: n_def)
  finally have A: "pow2 (expo x) \<le> x" using b1 by (simp add: e pow2_nat)
  have "x < of_int (n + 1)" unfolding n_def by linarith
  also have "(of_int (n + 1) :: rat) \<le> of_int (2 ^ nat b)"
  proof -
    have "n + 1 \<le> 2 ^ nat b" using hi by simp
    then show ?thesis by (simp only: of_int_le_iff)
  qed
  also have "(of_int (2 ^ nat b) :: rat) = 2 ^ nat b" by simp
  finally have "x < 2 ^ nat b" .
  then have B: "x < 2 * pow2 (expo x)"
    using b1 by (simp add: e pow2_nat two_power_nat_step)
  from A B show ?thesis ..
next
  case False
  then have x1: "x < 1" by simp
  define c where "c = \<lceil>1 / x\<rceil>"
  define m where "m = c - 1"
  define k where "k = bitlen m"
  have inv1: "1 < 1 / x" using assms x1 by (simp add: field_simps)
  have "1 < c" unfolding c_def using inv1 by (simp add: less_ceiling_iff)
  then have mpos: "0 < m" by (simp add: m_def)
  from bitlen_bounds [OF mpos]
  have lo: "2 ^ nat (k - 1) \<le> m" and hi: "m < 2 ^ nat k" by (simp_all add: k_def)
  have k1: "1 \<le> k"
    using mpos bitlen_eq_zero_iff [of m] bitlen_nonneg [of m] by (simp add: k_def)
  have e: "expo x = - k" using False by (simp add: expo_def c_def m_def k_def)
  have p: "pow2 (- k) = 1 / 2 ^ nat k" using k1 by (simp add: pow2_def)
  have "1 / x \<le> of_int c" by (simp add: c_def)
  also have "(of_int c :: rat) \<le> of_int (2 ^ nat k)"
  proof -
    have "c \<le> 2 ^ nat k" using hi by (simp add: m_def)
    then show ?thesis by (simp only: of_int_le_iff)
  qed
  also have "(of_int (2 ^ nat k) :: rat) = 2 ^ nat k" by simp
  finally have "1 / x \<le> 2 ^ nat k" .
  then have A: "pow2 (expo x) \<le> x" using assms by (simp add: e p field_simps)
  have "(2::rat) ^ nat (k - 1) \<le> of_int m" using lo by simp
  also have "of_int m < 1 / x" unfolding m_def c_def by linarith
  finally have lt: "2 ^ nat (k - 1) < 1 / x" .
  have "2 * pow2 (- k) = 1 / 2 ^ nat (k - 1)"
    using k1 by (simp add: p two_power_nat_step)
  moreover have "x < 1 / 2 ^ nat (k - 1)" using lt assms by (simp add: field_simps)
  ultimately have B: "x < 2 * pow2 (expo x)" by (simp add: e)
  from A B show ?thesis ..
qed

lemma round_even_err: "\<bar>of_int (round_even m) - m\<bar> \<le> 1 / 2"
proof -
  have "of_int \<lfloor>m\<rfloor> \<le> m" "m < of_int \<lfloor>m\<rfloor> + 1" by linarith+
  then show ?thesis
    by (auto simp: round_even_def Let_def abs_le_iff)
qed

lemma fl_err:
  assumes "0 < x"
  shows "\<bar>fl x - x\<bar> \<le> x / 2 ^ 53"
proof -
  define u where "u = pow2 (expo x - 52)"
  define n where "n = round_even (x / u)"
  have upos: "0 < u" by (simp add: u_def pow2_pos)
  have u: "u = pow2 (expo x) / 2 ^ 52" by (simp add: u_def pow2_diff pow2_nat)
  have fl: "fl x = of_int n * u" using assms by (simp add: fl_def Let_def u_def n_def)
  have "\<bar>of_int n - x / u\<bar> \<le> 1 / 2" unfolding n_def by (rule round_even_err)
  then have "\<bar>of_int n - x / u\<bar> * u \<le> 1 / 2 * u"
    using upos by (simp only: mult_le_cancel_right_pos)
  moreover have "\<bar>of_int n - x / u\<bar> * u = \<bar>(of_int n - x / u) * u\<bar>"
    using upos by (simp add: abs_mult)
  moreover have "(of_int n - x / u) * u = of_int n * u - x"
    using upos by (simp add: field_simps)
  ultimately have "\<bar>fl x - x\<bar> \<le> u / 2" by (simp add: fl)
  also have "u / 2 \<le> x / 2 ^ 53" using expo_bounds [OF assms] by (simp add: u)
  finally show ?thesis .
qed


text \<open>
  Two values every IEEE 754 implementation agrees on: the double nearest to one tenth, and
  the product \<^verbatim>\<open>(23 / 40) * 100\<close>, one unit in the last place below 57.5.
\<close>

lemma fl_one_tenth: "fl (1 / 10) = 3602879701896397 / 36028797018963968"
  by code_simp

lemma fl_23_40_times_100: "fl (fl (23 / 40) * 100) = 115 / 2 - 1 / 2 ^ 47"
  by code_simp

lemma not_half_way_mod:
  assumes "0 < t" and "\<not> half_way c t"
  shows "(200 * c + t) mod (2 * t) \<noteq> 0"
proof
  define n where "n = (200 * c + t) div (2 * t)"
  assume "(200 * c + t) mod (2 * t) = 0"
  then have eq: "200 * c + t = 2 * t * n"
    unfolding n_def by (metis add.right_neutral mult_div_mod_eq)
  have "0 < n" using eq assms(1) by (cases n) simp_all
  then obtain k where n: "n = Suc k" by (cases n) simp_all
  have c: "200 * c = (2 * k + 1) * t" using eq by (simp add: n algebra_simps)
  have "t dvd 200 * c" by (simp add: c)
  moreover have "(200 * c) div t = 2 * k + 1" using assms(1) by (simp add: c)
  ultimately have "half_way c t" by (simp add: half_way_def)
  with assms(2) show False ..
qed

lemma percentage_exact:
  assumes t: "0 < t" and ct: "c \<le> t" and small: "t < 2 ^ 32" and nh: "\<not> half_way c t"
  shows "percentage c t = Num (of_int (round_half_up (100 * of_nat c / of_nat t)))"
proof (cases "c = 0")
  case True
  then show ?thesis using t
    by (simp add: percentage_def js_div_def fl_def round_half_up_def)
next
  case False
  define x :: rat where "x = of_nat c / of_nat t"
  define y1 where "y1 = fl x"
  define z where "z = y1 * 100"
  define y2 where "y2 = fl z"
  define n where "n = (200 * c + t) div (2 * t)"
  define r where "r = (200 * c + t) mod (2 * t)"
  define T :: rat where "T = of_nat t"
  have Tpos: "0 < T" using t by (simp add: T_def)
  have xpos: "0 < x" using False t by (simp add: x_def)
  have x1: "x \<le> 1" using ct t by (simp add: x_def)
  define eps :: rat where "eps = 1 / 2 ^ 53"
  have eps_pos: "0 < eps" by (simp add: eps_def)
  have eps_small: "eps \<le> 1 / 100" by (simp add: eps_def)
  have "\<bar>y1 - x\<bar> \<le> x / 2 ^ 53" unfolding y1_def by (rule fl_err [OF xpos])
  then have e1: "\<bar>y1 - x\<bar> \<le> x * eps" by (simp add: eps_def)
  have "x * eps \<le> 1 * eps" using x1 eps_pos by (simp only: mult_le_cancel_right_pos)
  then have e1': "\<bar>y1 - x\<bar> \<le> eps" using e1 by simp
  have "eps < 1" using eps_small by simp
  then have "x * eps < x * 1" using xpos by (simp only: mult_less_cancel_left_pos)
  then have y1pos: "0 < y1" using e1 by linarith
  have zpos: "0 < z" using y1pos by (simp add: z_def)
  have z101: "z \<le> 101" using e1' x1 eps_small unfolding z_def by linarith
  have "\<bar>y2 - z\<bar> \<le> z / 2 ^ 53" unfolding y2_def by (rule fl_err [OF zpos])
  then have e2: "\<bar>y2 - z\<bar> \<le> z * eps" by (simp add: eps_def)
  have "z * eps \<le> 101 * eps" using z101 eps_pos by (simp only: mult_le_cancel_right_pos)
  then have e2': "\<bar>y2 - z\<bar> \<le> 101 * eps" using e2 by linarith
  have e3: "\<bar>z - 100 * x\<bar> \<le> 100 * eps"
    using e1' unfolding z_def by linarith
  have err: "\<bar>y2 - 100 * x\<bar> \<le> 201 * eps"
    using e2' e3 by linarith
  have rlt: "r < 2 * t" using t by (simp add: r_def)
  have rpos: "0 < r" using not_half_way_mod [OF t nh] by (simp add: r_def)
  have "200 * c + t = 2 * t * n + r" by (simp add: n_def r_def)
  then have "(of_nat (200 * c + t) :: rat) = of_nat (2 * t * n + r)" by (simp only:)
  then have split: "200 * of_nat c + T = 2 * T * of_nat n + of_nat r"
    by (simp add: T_def)
  define d where "d = 1 / (2 * T)"
  define q where "q = of_nat r / (2 * T)"
  have v: "100 * x + 1 / 2 = of_nat n + q"
    using split Tpos by (simp add: q_def x_def T_def [symmetric] field_simps)
  have T32: "T < 2 ^ 32"
  proof -
    have "(of_nat t :: rat) < of_nat (2 ^ 32)" using small by (simp only: of_nat_less_iff)
    then show ?thesis by (simp add: T_def)
  qed
  have gap: "201 * eps < d"
  proof -
    have "201 * eps < 1 / 2 ^ 33" by (simp add: eps_def)
    also have "1 / 2 ^ 33 \<le> d"
      using T32 Tpos by (simp add: d_def field_simps)
    finally show ?thesis .
  qed
  have r1: "d \<le> q"
    using rpos Tpos by (simp add: d_def q_def field_simps)
  have r2: "q \<le> 1 - d"
  proof -
    have "r + 1 \<le> 2 * t" using rlt by simp
    then have "(of_nat (r + 1) :: rat) \<le> of_nat (2 * t)" by (simp only: of_nat_le_iff)
    then have "of_nat r + 1 \<le> 2 * T" by (simp add: T_def)
    then show ?thesis using Tpos by (simp add: d_def q_def field_simps)
  qed
  have exact: "round_half_up (100 * of_nat c / of_nat t) = int n"
  proof -
    have "\<lfloor>100 * x + 1 / 2\<rfloor> = int n"
    proof (rule floor_unique)
      show "of_int (int n) \<le> 100 * x + 1 / 2" using r1 gap eps_pos v by simp
      show "100 * x + 1 / 2 < of_int (int n) + 1" using r2 gap eps_pos v by simp
    qed
    then show ?thesis by (simp add: round_half_up_def x_def)
  qed
  have code: "\<lfloor>y2 + 1 / 2\<rfloor> = int n"
  proof (rule floor_unique)
    have "of_nat n + q - 201 * eps \<le> y2 + 1 / 2"
      using err v by linarith
    then show "of_int (int n) \<le> y2 + 1 / 2" using r1 gap by simp
    have "y2 + 1 / 2 \<le> of_nat n + q + 201 * eps"
      using err v by linarith
    then show "y2 + 1 / 2 < of_int (int n) + 1" using r2 gap by simp
  qed
  have "percentage c t = Num (of_int \<lfloor>y2 + 1 / 2\<rfloor>)"
    using t by (simp add: percentage_def js_div_def y2_def z_def y1_def x_def)
  then show ?thesis by (simp add: code exact)
qed


section \<open>The handler and the record it writes\<close>

lemma completeSession_users:
  assumes "user (ui w) = Some u"
    and "currentQuestionIndex (ui w) < length (questions (ui w))"
    and "usersListOk env" and "usersWriteOk env"
  shows "users (completeSession env w) (id_au u) =
           Some (progressRecord u (users w (id_au u)) (today_env env) (yesterdayStr_env env)
                  (totalQuestions (ui w)) (correctCount (ui w)))"
  using assms by (simp add: completeSession_def completeFailed_def Let_def)

text \<open>
  C2, as the code has it: a prior \<open>lastStudyDate\<close> that is neither today nor yesterday,
  is set, and is not before yesterday (a future date) takes none of the three branches,
  so \<open>currentStreak\<close> keeps its previous value; it is not reset to 1. The longest streak,
  the date and the totals are written as in every other case.
\<close>

theorem C2_other_value_keeps_streak:
  assumes "lastStudyDate existingUser \<noteq> Some tdy"
    and "lastStudyDate existingUser \<noteq> Some yst"
    and "\<not> falsy (lastStudyDate existingUser)"
    and "\<not> js_lt (lastStudyDate existingUser) yst"
  shows "currentStreak (progressRecord u (Some existingUser) tdy yst t c)
           = currentStreak existingUser
       \<and> longestStreak (progressRecord u (Some existingUser) tdy yst t c)
           = max (longestStreak existingUser) (currentStreak existingUser)
       \<and> lastStudyDate (progressRecord u (Some existingUser) tdy yst t c) = Some tdy
       \<and> totalQuestionsAnswered (progressRecord u (Some existingUser) tdy yst t c)
           = totalQuestionsAnswered existingUser + int t
       \<and> correctAnswers (progressRecord u (Some existingUser) tdy yst t c)
           = correctAnswers existingUser + int c"
  using assms by (simp add: progressRecord_def updatedUser_def newStreak_def)

theorem C2_other_value_witness:
  "lastStudyDate (aliceRow 3 4 (Some ''2024-01-15'') 20 15) \<noteq> Some ''2024-01-10''
   \<and> lastStudyDate (aliceRow 3 4 (Some ''2024-01-15'') 20 15) \<noteq> Some ''2024-01-09''
   \<and> \<not> falsy (lastStudyDate (aliceRow 3 4 (Some ''2024-01-15'') 20 15))
   \<and> \<not> js_lt (lastStudyDate (aliceRow 3 4 (Some ''2024-01-15'') 20 15)) ''2024-01-09''
   \<and> currentStreak (progressRecord alice (Some (aliceRow 3 4 (Some ''2024-01-15'') 20 15))
        ''2024-01-10'' ''2024-01-09'' 5 4) = 3
   \<and> longestStreak (progressRecord alice (Some (aliceRow 3 4 (Some ''2024-01-15'') 20 15))
        ''2024-01-10'' ''2024-01-09'' 5 4) = 4"
  using C2_other_value_keeps_streak [of "aliceRow 3 4 (Some ''2024-01-15'') 20 15"
      "''2024-01-10''" "''2024-01-09''" alice 5 4]
  by (simp add: aliceRow_def falsy_def js_lt_def)

text \<open>
  C2, as the specification states it, fails: with today 2024-01-10 and yesterday
  2024-01-09, a prior record dated 2024-01-12 with a streak of 5 keeps the streak 5.
\<close>

theorem C2_future_date_counterexample:
  "lastStudyDate (aliceRow 5 8 (Some ''2024-01-12'') 20 15) \<noteq> Some ''2024-01-10''
   \<and> lastStudyDate (aliceRow 5 8 (Some ''2024-01-12'') 20 15) \<noteq> Some ''2024-01-09''
   \<and> \<not> falsy (lastStudyDate (aliceRow 5 8 (Some ''2024-01-12'') 20 15))
   \<and> \<not> js_lt (lastStudyDate (aliceRow 5 8 (Some ''2024-01-12'') 20 15)) ''2024-01-09''
   \<and> currentStreak (progressRecord alice (Some (aliceRow 5 8 (Some ''2024-01-12'') 20 15))
        ''2024-01-10'' ''2024-01-09'' 5 4) = 5
   \<and> currentStreak (progressRecord alice (Some (aliceRow 5 8 (Some ''2024-01-12'') 20 15))
        ''2024-01-10'' ''2024-01-09'' 5 4) \<noteq> 1"
  by (simp add: aliceRow_def falsy_def js_lt_def progressRecord_def updatedUser_def newStreak_def)

text \<open>
  C3: for every prior record, or none, the record written has
  \<open>longestStreak \<ge> currentStreak\<close>: the longest streak is the maximum of the previous
  longest streak and the new current streak (and both are 1 for a first record).
\<close>

theorem C3_longest_ge_current:
  "currentStreak (progressRecord u prior tdy yst t c)
     \<le> longestStreak (progressRecord u prior tdy yst t c)
   \<and> longestStreak (progressRecord u prior tdy yst t c)
     = (case prior of
          None \<Rightarrow> 1
        | Some existingUser \<Rightarrow>
            max (longestStreak existingUser)
                (currentStreak (progressRecord u prior tdy yst t c)))"
  by (cases prior) (simp_all add: progressRecord_def updatedUser_def createdUser_def)

theorem C3_longest_ge_current_witness:
  "currentStreak (progressRecord alice (Some (aliceRow 8 8 (Some ''2024-01-09'') 20 15))
       ''2024-01-10'' ''2024-01-09'' 5 4) = 9
   \<and> longestStreak (progressRecord alice (Some (aliceRow 8 8 (Some ''2024-01-09'') 20 15))
       ''2024-01-10'' ''2024-01-09'' 5 4) = 9"
  using C3_longest_ge_current [of alice "Some (aliceRow 8 8 (Some ''2024-01-09'') 20 15)"
      "''2024-01-10''" "''2024-01-09''" 5 4]
  by (simp add: aliceRow_def progressRecord_def updatedUser_def newStreak_def)










section \<open>The tally merged by completeSession\<close>

text \<open>
  C1, at a failing input: one question, answered right, no prior record. submitAnswer has
  appended the answer to \<open>userAnswers\<close> before the button that leads to completeSession is
  rendered, and completeSession adds one more for the same selection: the record created
  has 2 correct answers of 1 question, and so has the study session row, while the results
  view of the same session counts 1 of 1.
\<close>

theorem C1_last_answer_counted_twice:
  "render (ui perfectRun) = ResultsView 1 1 (Num 100)
   \<and> map_option totalQuestionsAnswered (users perfectRun ''u1'') = Some 1
   \<and> map_option correctAnswers (users perfectRun ''u1'') = Some 2
   \<and> studySessions perfectRun =
       [\<lparr> userId_s = ''u1'', sessionDate = ''2024-03-01'', questionsAnswered = 1,
          correctAnswers_s = 2, sessionDuration = 0 \<rparr>]"
  by code_simp


section \<open>The states the screen reaches\<close>

lemma consistent_loaded: "qs \<noteq> [] \<Longrightarrow> consistent (loaded u qs us)"
  by (simp add: consistent_def loaded_def)

lemma consistent_handleAnswerSelect: "consistent w \<Longrightarrow> consistent (handleAnswerSelect k w)"
  by (auto simp: consistent_def handleAnswerSelect_def split: if_splits)

lemma consistent_submitAnswer:
  "consistent w \<Longrightarrow> \<not> showExplanation (ui w) \<Longrightarrow> consistent (submitAnswer env w)"
  by (auto simp: consistent_def submitAnswer_def Let_def split: option.splits if_splits)

lemma consistent_completeSession:
  "consistent w \<Longrightarrow> showExplanation (ui w)
     \<Longrightarrow> currentQuestionIndex (ui w) + 1 = length (questions (ui w))
     \<Longrightarrow> consistent (completeSession env w)"
  by (auto simp: consistent_def completeSession_def completeFailed_def Let_def
           split: option.splits if_splits)

lemma consistent_nextQuestion:
  "consistent w \<Longrightarrow> showExplanation (ui w) \<Longrightarrow> \<not> sessionComplete (ui w)
     \<Longrightarrow> consistent (nextQuestion env w)"
proof (cases "currentQuestionIndex (ui w) + 1 < length (questions (ui w))")
  case True
  assume "consistent w" "showExplanation (ui w)" "\<not> sessionComplete (ui w)"
  with True show ?thesis by (simp add: consistent_def nextQuestion_def)
next
  case False
  assume c: "consistent w" and s: "showExplanation (ui w)"
  with False have "currentQuestionIndex (ui w) + 1 = length (questions (ui w))"
    by (simp add: consistent_def)
  from consistent_completeSession [OF c s this] False show ?thesis
    by (simp add: nextQuestion_def)
qed

lemma consistent_press: "consistent w \<Longrightarrow> consistent (press env t w)"
  by (auto simp: press_def render_def consistent_handleAnswerSelect consistent_submitAnswer
        consistent_nextQuestion consistent_def [of w]
      split: View.splits Touch.splits if_splits)

lemma consistent_run: "consistent w \<Longrightarrow> consistent (run es w)"
proof (induction es arbitrary: w)
  case Nil
  then show ?case by simp
next
  case (Cons e es)
  obtain env t where e: "e = (env, t)" by (cases e)
  from Cons.prems have "consistent (press env t w)" by (rule consistent_press)
  then show ?case by (simp add: e Cons.IH)
qed

lemma run_complete_answers:
  assumes "qs \<noteq> []" and "sessionComplete (ui (run es (loaded u qs us)))"
  shows "length (userAnswers (ui (run es (loaded u qs us))))
           = length (questions (ui (run es (loaded u qs us))))
       \<and> \<not> loading (ui (run es (loaded u qs us)))"
  using consistent_run [OF consistent_loaded [OF assms(1)], of es u us] assms(2)
  by (simp add: consistent_def)


section \<open>The session scorer of the results view\<close>






section \<open>The category statistics\<close>

lemma Map_get_set: "Map_get (Map_set k v m) k' = (if k' = k then Some v else Map_get m k')"
  by (induction m) auto

lemma Map_get_fold:
  "Map_get (foldl (\<lambda>m (k, v). Map_set k v m) m0 pairs) k = None
     \<longleftrightarrow> Map_get m0 k = None \<and> k \<notin> fst ` set pairs"
  by (induction pairs arbitrary: m0) (auto simp: Map_get_set split: if_splits)

lemma Map_get_questionMap:
  "Map_get (questionMap qs) (questionId_r a) = None \<longleftrightarrow> \<not> found qs a"
  by (simp add: questionMap_def Map_new_def Map_get_fold found_def image_image)

lemma Map_get_in_set: "Map_get m k = Some d \<Longrightarrow> (k, d) \<in> set m"
  by (induction m) (auto split: if_splits)

lemma set_Map_set: "set (Map_set k v m) \<subseteq> insert (k, v) (set m)"
  by (induction m) (auto split: if_splits)

lemma sum_Map_set:
  "sum_list (map (\<lambda>e. total_t (snd e)) (Map_set k v m))
     + (case Map_get m k of None \<Rightarrow> 0 | Some d \<Rightarrow> total_t d)
   = sum_list (map (\<lambda>e. total_t (snd e)) m) + total_t v"
  by (induction m) auto

lemma sum_tallyAnswer:
  "sum_list (map (\<lambda>e. total_t (snd e)) (tallyAnswer qm m a))
   = sum_list (map (\<lambda>e. total_t (snd e)) m)
     + (if Map_get qm (questionId_r a) = None then 0 else 1)"
proof (cases "Map_get qm (questionId_r a)")
  case None
  then show ?thesis by (simp add: tallyAnswer_def)
next
  case (Some q)
  show ?thesis
  proof (cases "Map_get m (category q)")
    case None
    with Some sum_Map_set [of "category q" _ m] show ?thesis
      by (simp add: tallyAnswer_def)
  next
    case (Some d)
    with \<open>Map_get qm (questionId_r a) = Some q\<close>
      sum_Map_set [of "category q"
        "\<lparr> total_t = total_t d + 1,
           correct_t = correct_t d + (if 0 < isCorrect_r a then 1 else 0) \<rparr>" m]
    show ?thesis
      by (simp add: tallyAnswer_def)
  qed
qed

lemma sum_foldl_tallyAnswer:
  "sum_list (map (\<lambda>e. total_t (snd e)) (foldl (tallyAnswer qm) m answers))
   = sum_list (map (\<lambda>e. total_t (snd e)) m)
     + length (filter (\<lambda>a. Map_get qm (questionId_r a) \<noteq> None) answers)"
  by (induction answers arbitrary: m) (simp_all add: sum_tallyAnswer)

lemma good_tallyAnswer:
  assumes "\<forall>e\<in>set m. 0 < total_t (snd e) \<and> correct_t (snd e) \<le> total_t (snd e)"
  shows "\<forall>e\<in>set (tallyAnswer qm m a). 0 < total_t (snd e) \<and> correct_t (snd e) \<le> total_t (snd e)"
proof (cases "Map_get qm (questionId_r a)")
  case None
  with assms show ?thesis by (simp add: tallyAnswer_def)
next
  case (Some q)
  show ?thesis
  proof (cases "Map_get m (category q)")
    case None
    with Some assms set_Map_set [of "category q" _ m] show ?thesis
      by (fastforce simp: tallyAnswer_def)
  next
    case (Some d)
    from Map_get_in_set [OF Some] assms have "correct_t d \<le> total_t d" by auto
    with Some \<open>Map_get qm (questionId_r a) = Some q\<close> assms
      set_Map_set [of "category q" _ m]
    show ?thesis
      by (fastforce simp: tallyAnswer_def)
  qed
qed

lemma good_foldl_tallyAnswer:
  assumes "\<forall>e\<in>set m. 0 < total_t (snd e) \<and> correct_t (snd e) \<le> total_t (snd e)"
  shows "\<forall>e\<in>set (foldl (tallyAnswer qm) m answers).
           0 < total_t (snd e) \<and> correct_t (snd e) \<le> total_t (snd e)"
  using assms
proof (induction answers arbitrary: m)
  case Nil
  then show ?case by simp
next
  case (Cons a answers)
  have "\<forall>e\<in>set (tallyAnswer qm m a).
          0 < total_t (snd e) \<and> correct_t (snd e) \<le> total_t (snd e)"
    by (rule good_tallyAnswer [OF Cons.prems])
  from Cons.IH [OF this] show ?case by simp
qed

lemma sum_insort_key:
  fixes f :: "'a \<Rightarrow> nat"
  shows "sum_list (map f (insort_key g x xs)) = f x + sum_list (map f xs)"
  by (induction xs) auto

lemma sum_sort_key:
  fixes f :: "'a \<Rightarrow> nat"
  shows "sum_list (map f (sort_key g xs)) = sum_list (map f xs)"
  by (induction xs) (auto simp: sum_insort_key)

lemma length_filter_all: "length (filter P xs) = length xs \<longleftrightarrow> (\<forall>x\<in>set xs. P x)"
  using sum_length_filter_compl [of P xs] by (auto simp: filter_empty_conv)

lemma sorted_sortByTotal: "sorted_wrt (\<lambda>a b. total b \<le> total a) (sortByTotal stats)"
proof -
  have "sorted (map (\<lambda>s. - int (total s)) (sortByTotal stats))"
    unfolding sortByTotal_def by (rule sorted_sort_key)
  then show ?thesis by (simp add: sorted_map)
qed

lemma set_calculateCategoryStats:
  "set (calculateCategoryStats answers qs)
   = toStats ` set (foldl (tallyAnswer (questionMap qs)) [] answers)"
  by (simp add: calculateCategoryStats_def sortByTotal_def)

lemma sum_calculateCategoryStats:
  "sum_list (map total (calculateCategoryStats answers qs)) = length (filter (found qs) answers)"
proof -
  have "sum_list (map total (calculateCategoryStats answers qs))
        = sum_list (map (\<lambda>e. total_t (snd e)) (foldl (tallyAnswer (questionMap qs)) [] answers))"
    by (simp add: calculateCategoryStats_def sortByTotal_def sum_sort_key toStats_def comp_def)
  moreover have "(\<lambda>a. Map_get (questionMap qs) (questionId_r a) \<noteq> None) = found qs"
    by (rule ext) (simp only: Map_get_questionMap not_not)
  ultimately show ?thesis
    by (simp only: sum_foldl_tallyAnswer list.map sum_list.Nil add_0)
qed

lemma entry_calculateCategoryStats:
  assumes "s \<in> set (calculateCategoryStats answers qs)"
  shows "0 < total s \<and> correct s \<le> total s \<and> accuracy s = percentage (correct s) (total s)"
proof -
  from assms obtain e where e: "e \<in> set (foldl (tallyAnswer (questionMap qs)) [] answers)"
    and s: "s = toStats e"
    by (auto simp: set_calculateCategoryStats)
  have "\<forall>e\<in>set (foldl (tallyAnswer (questionMap qs)) [] answers).
          0 < total_t (snd e) \<and> correct_t (snd e) \<le> total_t (snd e)"
    by (rule good_foldl_tallyAnswer) simp
  with e show ?thesis by (simp add: s toStats_def)
qed

text \<open>
  C9, as the code has it. For all answers and every catalog: the result is sorted by
  \<open>total\<close>, the larger first; the totals add up to the number of answers whose question is
  in the catalog (answers to other questions are left out without an error), which is at
  most the number of answers and equal to it exactly when every answer's question is in
  the catalog; every entry has \<open>0 < total\<close>, \<open>correct \<le> total\<close> and the accuracy
  \<^verbatim>\<open>Math.round((correct / total) * 100)\<close> computed on doubles, which is the real-valued
  percentage rounded half up whenever that percentage is not exactly half-way between two
  integers (for fewer than \<open>2 ^ 32\<close> answers).
\<close>

theorem C9_category_stats:
  "sorted_wrt (\<lambda>a b. total b \<le> total a) (calculateCategoryStats answers qs)
   \<and> sum_list (map total (calculateCategoryStats answers qs)) = length (filter (found qs) answers)
   \<and> sum_list (map total (calculateCategoryStats answers qs)) \<le> length answers
   \<and> (sum_list (map total (calculateCategoryStats answers qs)) = length answers
        \<longleftrightarrow> (\<forall>a\<in>set answers. found qs a))
   \<and> (\<forall>s\<in>set (calculateCategoryStats answers qs).
         0 < total s \<and> correct s \<le> total s
         \<and> accuracy s = percentage (correct s) (total s))
   \<and> (length answers < 2 ^ 32 \<longrightarrow>
        (\<forall>s\<in>set (calculateCategoryStats answers qs).
           \<not> half_way (correct s) (total s) \<longrightarrow>
           accuracy s = Num (of_int (round_half_up (100 * of_nat (correct s) / of_nat (total s))))))"
proof -
  let ?out = "calculateCategoryStats answers qs"
  have a: "sorted_wrt (\<lambda>a b. total b \<le> total a) ?out"
    unfolding calculateCategoryStats_def by (rule sorted_sortByTotal)
  have b: "sum_list (map total ?out) = length (filter (found qs) answers)"
    by (rule sum_calculateCategoryStats)
  have c: "sum_list (map total ?out) \<le> length answers"
    by (simp add: b)
  have d: "sum_list (map total ?out) = length answers \<longleftrightarrow> (\<forall>a\<in>set answers. found qs a)"
    by (simp add: b length_filter_all)
  have e: "\<forall>s\<in>set ?out. 0 < total s \<and> correct s \<le> total s
             \<and> accuracy s = percentage (correct s) (total s)"
    using entry_calculateCategoryStats by blast
  have f: "accuracy s = Num (of_int (round_half_up (100 * of_nat (correct s) / of_nat (total s))))"
    if len: "length answers < 2 ^ 32" and s: "s \<in> set ?out"
      and nh: "\<not> half_way (correct s) (total s)" for s
  proof -
    from entry_calculateCategoryStats [OF s]
    have pos: "0 < total s" and le: "correct s \<le> total s"
      and acc: "accuracy s = percentage (correct s) (total s)" by simp_all
    have "total s \<in> set (map total ?out)" using s by simp
    then have "total s \<le> sum_list (map total ?out)" by (rule member_le_sum_list) simp
    with c len have "total s < 2 ^ 32" by linarith
    from percentage_exact [OF pos le this nh] acc show ?thesis by simp
  qed
  from a b c d e f show ?thesis by blast
qed

theorem C9_category_stats_witness:
  "calculateCategoryStats someAnswers someCatalog =
     [\<lparr> category_cs = ''People'', total = 3, correct = 2, accuracy = Num 67 \<rparr>,
      \<lparr> category_cs = ''Process'', total = 1, correct = 0, accuracy = Num 0 \<rparr>]
   \<and> sum_list (map total (calculateCategoryStats someAnswers someCatalog)) = 4
   \<and> length (filter (found someCatalog) someAnswers) = 4
   \<and> length someAnswers = 5"
proof -
  have "calculateCategoryStats someAnswers someCatalog =
     [\<lparr> category_cs = ''People'', total = 3, correct = 2, accuracy = Num 67 \<rparr>,
      \<lparr> category_cs = ''Process'', total = 1, correct = 0, accuracy = Num 0 \<rparr>]"
    by code_simp
  moreover have "length someAnswers = 5" by (simp add: someAnswers_def)
  ultimately show ?thesis
    using C9_category_stats [of someAnswers someCatalog] by simp
qed

text \<open>
  C9, as the specification states it, fails on the accuracy: 40 answers in one category,
  23 of them right, get the accuracy 57, while \<open>100 * 23 / 40 = 57.5\<close> rounds to 58.
\<close>

theorem C9_accuracy_counterexample:
  "calculateCategoryStats (replicate 23 (answered ''q1'' 1) @ replicate 17 (answered ''q1'' 0))
     [question ''q1'' ''A'' ''People'']
   = [\<lparr> category_cs = ''People'', total = 40, correct = 23, accuracy = Num 57 \<rparr>]
   \<and> round_half_up (100 * 23 / 40) = 58"
  by code_simp


section \<open>A failed write of an answer record\<close>










end
